theory Spec2Isabelle
  imports Main "HOL-Library.Word"
begin

section \<open>The broker: data model\<close>

text \<open>
  A connection (Go's \<open>net.Conn\<close>) is identified by a number, a byte slice is a list of
  bytes. Everything the broker does besides updating its tables (logging, publishing a
  well-known event, writing on a connection, closing a connection, stopping a timer,
  observing a latency) is recorded, in program order, in a trace of events.
\<close>

type_synonym conn = nat
type_synonym bytes = "8 word list"
type_synonym addr = nat

datatype level = Info | Error | Debug

text \<open>
  Modelled from the spec: the declaration of the service struct is not among the sources;
  \<open>Name\<close>, \<open>Identification\<close> and \<open>Spies\<close> are the fields the teardown of
  \<open>handle\<close> reads and writes.
\<close>

record service =
  Name :: string
  Identification :: string
  Spies :: "conn list"

text \<open>
  Modelled from the spec: the declaration of requestTracking is not among the sources.
  \<open>sender\<close>, \<open>timer\<close>, \<open>spies\<close>, \<open>start\<close> and \<open>latencyObserver\<close> are the
  fields \<open>handleReply\<close> reads; \<open>clientId\<close> is the "original client id stored in the
  tracker" of the request handler's description, which no function of the sources reads.
\<close>

record requestTracking =
  sender :: conn
  timer :: nat
  spies :: "conn list"
  start :: nat
  latencyObserver :: nat
  clientId :: "64 word"

text \<open>The payload of a Reply, as \<open>handleReply\<close> receives it after unmarshalling.\<close>

datatype errorType = Reply_Error_Timeout | Reply_Error_NoSuchService | Reply_Error_Custom

record Reply =
  reply_Id :: "64 word"
  reply_Data :: bytes
  reply_Error :: "(errorType \<times> string) option"

datatype payload =
    ConnJSON conn
  | ServiceJSON service
  | SubscriberJSON string conn

datatype event =
    Log level string
  | Publish string payload
  | SendRaw conn bytes
  | ConnClose conn
  | TimerStop nat
  | Observe nat

text \<open>
  The Broker struct. Services are held by pointer in three tables, so they live in a
  store \<open>heap\<close> and the tables hold addresses. The two subscriber tables are association
  lists: teardown ranges over them, and the order of the list is the order of that range.
\<close>

record broker =
  connList :: "conn list"
  connNameMap :: "conn \<rightharpoonup> string"
  connSpies :: "conn \<rightharpoonup> addr list"
  Services :: "string \<rightharpoonup> (string \<rightharpoonup> addr)"
  servicesConn :: "conn \<rightharpoonup> addr list"
  reqIds :: "64 word \<rightharpoonup> requestTracking"
  subscriberMap :: "(string \<times> conn list) list"
  subscriberMatchMap :: "(string \<times> conn list) list"
  heap :: "addr \<Rightarrow> service"

section \<open>reply.go: handleReply\<close>

definition forwardToSpies :: "conn list \<Rightarrow> bytes \<Rightarrow> event list" where
  "forwardToSpies sps msgRaw = map (\<lambda>spy. SendRaw spy msgRaw) sps"

definition handleReply :: "conn \<Rightarrow> bytes \<Rightarrow> Reply \<Rightarrow> broker \<Rightarrow> broker \<times> event list" where
  "handleReply c msgRaw rep b =
     (let ident = reply_Id rep in
      case reqIds b ident of
        None \<Rightarrow> (b, [Log Info ''[Reply] id:%d reply from %s'', Log Error ''[Reply] Unknown ID: %d''])
      | Some reqTrack \<Rightarrow>
          (b\<lparr>reqIds := (reqIds b)(ident := None)\<rparr>,
           [Log Info ''[Reply] id:%d reply from %s'', Observe (latencyObserver reqTrack)]
           @ forwardToSpies (spies reqTrack) msgRaw
           @ [TimerStop (timer reqTrack), Log Debug ''[Reply] Forwarding to %s'',
              SendRaw (sender reqTrack) msgRaw]))"

text \<open>The writes of a trace, in order, and the frames that reach one connection.\<close>

fun sends :: "event list \<Rightarrow> (conn \<times> bytes) list" where
  "sends [] = []"
| "sends (SendRaw c m # es) = (c, m) # sends es"
| "sends (e # es) = sends es"

definition receivedBy :: "conn \<Rightarrow> event list \<Rightarrow> bytes list" where
  "receivedBy c es = map snd (filter (\<lambda>p. fst p = c) (sends es))"

section \<open>broker.go: handleMessage\<close>

text \<open>
  The tag of a message: the five constants of the protocol, and \<open>Message_Other\<close> for
  any other value of the enumeration's integer type.
\<close>

datatype MessageType =
    Message_Register
  | Message_Request
  | Message_Reply
  | Message_Subscribe
  | Message_Publish
  | Message_Other int

record Message =
  msg_Type :: MessageType
  msg_Content :: bytes

record Register =
  register_Name :: string
  register_Identification :: string

text \<open>The client of the sources reads every field of a Request through a pointer.\<close>

record Request =
  request_Id :: "64 word option"
  request_ServiceName :: "string option"
  request_ServiceIdentification :: "string option"
  request_Method :: "string option"
  request_Data :: bytes

record Subscribe =
  subscribe_Event :: string

record Publication =
  publish_Event :: string
  publish_Data :: bytes

text \<open>
  \<open>proto.Unmarshal\<close> belongs to the protobuf library: the decoders are parameters, one
  per payload, \<open>None\<close> when the library returns an error. \<open>unmarshalMessage\<close> is the
  decoder of a whole frame, which the receiving side applies before the payload's.
\<close>

record codec =
  unmarshalMessage :: "bytes \<Rightarrow> Message option"
  unmarshalRegister :: "bytes \<Rightarrow> Register option"
  unmarshalRequest :: "bytes \<Rightarrow> Request option"
  unmarshalReply :: "bytes \<Rightarrow> Reply option"
  unmarshalSubscribe :: "bytes \<Rightarrow> Subscribe option"
  unmarshalPublish :: "bytes \<Rightarrow> Publication option"

text \<open>
  The broker's handlers of Register, Request, Subscribe and Publish are not among the
  sources: \<open>handleMessage\<close> takes them as parameters.
\<close>

record handlers =
  onRegister :: "conn \<Rightarrow> Register \<Rightarrow> broker \<Rightarrow> broker \<times> event list"
  onRequest :: "conn \<Rightarrow> bytes \<Rightarrow> Request \<Rightarrow> broker \<Rightarrow> broker \<times> event list"
  onSubscribe :: "conn \<Rightarrow> Subscribe \<Rightarrow> broker \<Rightarrow> broker \<times> event list"
  onPublish :: "conn \<Rightarrow> bytes \<Rightarrow> Publication \<Rightarrow> broker \<Rightarrow> broker \<times> event list"

definition logUnmarshalError :: "bytes \<Rightarrow> event list" where
  "logUnmarshalError m = [Log Error ''[Broker] Bad message (%d bytes): %s'']"

text \<open>
  A handler's outcome as \<open>handleMessage\<close> returns it: no error, the handler's state
  and events.
\<close>

definition handled :: "broker \<times> event list \<Rightarrow> string option \<times> broker \<times> event list" where
  "handled r = (None, fst r, snd r)"

definition handleMessage ::
  "handlers \<Rightarrow> codec \<Rightarrow> conn \<Rightarrow> bytes \<Rightarrow> Message \<Rightarrow> broker
     \<Rightarrow> string option \<times> broker \<times> event list" where
  "handleMessage H cd c msgBytes m b =
     (let msgContent = msg_Content m in
      case msg_Type m of
        Message_Register \<Rightarrow>
          (case unmarshalRegister cd msgContent of
             None \<Rightarrow> (Some ''Could not unmarshal register: %s'', b, logUnmarshalError msgContent)
           | Some register \<Rightarrow> handled (onRegister H c register b))
      | Message_Request \<Rightarrow>
          (case unmarshalRequest cd msgContent of
             None \<Rightarrow> (Some ''Could not unmarshal request: %s'', b, logUnmarshalError msgContent)
           | Some request \<Rightarrow> handled (onRequest H c msgBytes request b))
      | Message_Reply \<Rightarrow>
          (case unmarshalReply cd msgContent of
             None \<Rightarrow> (Some ''Could not unmarshal reply: %s'', b, logUnmarshalError msgContent)
           | Some reply \<Rightarrow> handled (handleReply c msgBytes reply b))
      | Message_Subscribe \<Rightarrow>
          (case unmarshalSubscribe cd msgContent of
             None \<Rightarrow> (Some ''Could not unmarshal subscribe: %s'', b, logUnmarshalError msgContent)
           | Some sub \<Rightarrow> handled (onSubscribe H c sub b))
      | Message_Publish \<Rightarrow>
          (case unmarshalPublish cd msgContent of
             None \<Rightarrow> (Some ''Could not unmarshal publish: %s'', b, logUnmarshalError msgContent)
           | Some pub \<Rightarrow> handled (onPublish H c msgBytes pub b))
      | Message_Other n \<Rightarrow> (Some ''Unknown message type: %d'', b, []))"

text \<open>
  The cases in which \<open>handleMessage\<close> has something to hand to a handler: the tag is
  one of the five and the payload unmarshals for it.
\<close>

definition decodes :: "codec \<Rightarrow> Message \<Rightarrow> bool" where
  "decodes cd m =
     (case msg_Type m of
        Message_Register \<Rightarrow> unmarshalRegister cd (msg_Content m) \<noteq> None
      | Message_Request \<Rightarrow> unmarshalRequest cd (msg_Content m) \<noteq> None
      | Message_Reply \<Rightarrow> unmarshalReply cd (msg_Content m) \<noteq> None
      | Message_Subscribe \<Rightarrow> unmarshalSubscribe cd (msg_Content m) \<noteq> None
      | Message_Publish \<Rightarrow> unmarshalPublish cd (msg_Content m) \<noteq> None
      | Message_Other n \<Rightarrow> False)"

section \<open>broker.go: handle\<close>

text \<open>
  Modelled from the spec: the names of the well-known events, whose constants are
  declared outside the sources.
\<close>

definition logNewConnection :: string where "logNewConnection = ''log.new_connection''"
definition logCloseConnection :: string where "logCloseConnection = ''log.close_connection''"
definition logLostService :: string where "logLostService = ''log.lost_service''"
definition logLostSubscriber :: string where "logLostSubscriber = ''log.lost_subscriber''"

text \<open>
  What \<open>common.RecvMessage\<close> returns: closed, msgBytes, msg, err. \<open>recv_msg\<close> is the
  message as the getters \<open>GetType\<close> and \<open>GetContent\<close> read it.
\<close>

record recv =
  recv_closed :: bool
  recv_msgBytes :: bytes
  recv_msg :: Message
  recv_err :: "string option"

definition logIf :: "'a option \<Rightarrow> string \<Rightarrow> event list" where
  "logIf e s = (case e of None \<Rightarrow> [] | Some x \<Rightarrow> [Log Error s])"

text \<open>
  The receive loop, over the results that \<open>RecvMessage\<close> returns one after the other.
  The first component of the result says whether the loop has left through its
  \<open>break\<close>; when the results run out before that, the loop is still waiting for the
  next message.
\<close>

fun handleLoop ::
  "handlers \<Rightarrow> codec \<Rightarrow> conn \<Rightarrow> recv list \<Rightarrow> broker \<Rightarrow> bool \<times> broker \<times> event list" where
  "handleLoop H cd c [] b = (False, b, [])"
| "handleLoop H cd c (r # rs) b =
     (let es0 = logIf (recv_err r) ''[Message] Receive: %s'' in
      if recv_closed r then (True, b, es0 @ [Log Info ''[Broker] Connection closed: %s''])
      else
        (case handleMessage H cd c (recv_msgBytes r) (recv_msg r) b of
           (e, b1, es1) \<Rightarrow>
             (case handleLoop H cd c rs b1 of
                (brk, b2, es2) \<Rightarrow>
                  (brk, b2, es0 @ es1 @ logIf e ''[Message] Handle: %s'' @ es2))))"

text \<open>A nil slice read from a map that has no entry for the key ranges over nothing.\<close>

definition slice :: "'a list option \<Rightarrow> 'a list" where
  "slice v = (case v of None \<Rightarrow> [] | Some xs \<Rightarrow> xs)"

text \<open>\<open>delete(b.Services[s.Name], s.Identification)\<close>: deleting from a nil map is a no-op.\<close>

definition deleteService ::
  "(string \<rightharpoonup> (string \<rightharpoonup> addr)) \<Rightarrow> string \<Rightarrow> string \<Rightarrow> (string \<rightharpoonup> (string \<rightharpoonup> addr))" where
  "deleteService sv n i = (case sv n of None \<Rightarrow> sv | Some m \<Rightarrow> sv(n \<mapsto> m(i := None)))"

text \<open>Closing the connections that spied a service; \<open>closeErr\<close> says whose Close fails.\<close>

fun closeSpies :: "(conn \<Rightarrow> bool) \<Rightarrow> conn list \<Rightarrow> event list" where
  "closeSpies closeErr [] = []"
| "closeSpies closeErr (c # cs) =
     [Log Debug ''[Service] Close spy conn: %s'', ConnClose c]
     @ (if closeErr c then [Log Error ''Could not close connection:''] else [])
     @ closeSpies closeErr cs"

fun removeServices :: "(conn \<Rightarrow> bool) \<Rightarrow> addr list \<Rightarrow> broker \<Rightarrow> broker \<times> event list" where
  "removeServices closeErr [] b = (b, [])"
| "removeServices closeErr (a # as) b =
     (let s = heap b a;
          b1 = b\<lparr>Services := deleteService (Services b) (Name s) (Identification s)\<rparr>
      in case removeServices closeErr as b1 of
           (b2, es) \<Rightarrow>
             (b2, [Log Info ''[Services] Remove %s'', Publish logLostService (ServiceJSON s)]
                  @ closeSpies closeErr (Spies s) @ es))"

text \<open>
  The inner loop of \<open>removeConnFromMap\<close>, \<open>for i, subConn := range subs\<close>. The range
  fixes the slice \<open>subs\<close> before the first iteration: its length \<open>length arr\<close> never
  changes, while the writes \<open>subs[i] = ...\<close> go to the array \<open>arr\<close> that \<open>subs\<close> shares
  with the slice stored in the table. \<open>k\<close> counts the iterations left, \<open>i\<close> is the
  index; the second component of the state is the length of the slice stored under the
  key (\<open>None\<close> once the key is deleted), the third the events published.
\<close>

fun scanSubs ::
  "conn \<Rightarrow> string \<Rightarrow> nat \<Rightarrow> nat \<Rightarrow> conn list \<times> nat option \<times> event list
     \<Rightarrow> conn list \<times> nat option \<times> event list" where
  "scanSubs c key 0 i s = s"
| "scanSubs c key (Suc k) i (arr, cur, es) =
     (if arr ! i = c then
        (let arr1 = arr[i := arr ! (length arr - 1)];
             es1 = es @ [Publish logLostSubscriber (SubscriberJSON key c)]
         in if length arr - 1 = 0 then (arr1, None, es1)
            else scanSubs c key k (Suc i) (arr1, Some (length arr - 1), es1))
      else scanSubs c key k (Suc i) (arr, cur, es))"

fun removeConnFromMap ::
  "conn \<Rightarrow> (string \<times> conn list) list \<Rightarrow> (string \<times> conn list) list \<times> event list" where
  "removeConnFromMap c [] = ([], [])"
| "removeConnFromMap c ((key, subs) # rest) =
     (case scanSubs c key (length subs) 0 (subs, Some (length subs), []) of
        (arr, cur, es) \<Rightarrow>
          (case removeConnFromMap c rest of
             (rest1, es1) \<Rightarrow>
               ((case cur of None \<Rightarrow> rest1 | Some l \<Rightarrow> (key, take l arr) # rest1), es @ es1)))"

text \<open>
  Removing the connection from a service it spied: the first entry equal to it is
  overwritten with the last entry, the slice loses its last entry, and the loop breaks.
\<close>

fun firstIndex :: "conn \<Rightarrow> conn list \<Rightarrow> nat \<Rightarrow> nat option" where
  "firstIndex c [] i = None"
| "firstIndex c (x # xs) i = (if x = c then Some i else firstIndex c xs (Suc i))"

definition removeSpy :: "conn \<Rightarrow> conn list \<Rightarrow> conn list" where
  "removeSpy c sp =
     (case firstIndex c sp 0 of
        None \<Rightarrow> sp
      | Some i \<Rightarrow> take (length sp - 1) (sp[i := sp ! (length sp - 1)]))"

fun unspy :: "conn \<Rightarrow> addr list \<Rightarrow> broker \<Rightarrow> broker" where
  "unspy c [] b = b"
| "unspy c (a # as) b =
     unspy c as (b\<lparr>heap := (heap b)(a := (heap b a)\<lparr>Spies := removeSpy c (Spies (heap b a))\<rparr>)\<rparr>)"

text \<open>
  Everything \<open>handle\<close> does after its loop. A connection is in \<open>connList\<close> once, so
  removing its list element removes its one occurrence.
\<close>

definition teardown :: "(conn \<Rightarrow> bool) \<Rightarrow> conn \<Rightarrow> broker \<Rightarrow> broker \<times> event list" where
  "teardown closeErr c b =
     (let b1 = b\<lparr>connList := remove1 c (connList b), connNameMap := (connNameMap b)(c := None)\<rparr> in
      case removeServices closeErr (slice (servicesConn b1 c)) b1 of
        (b2, es2) \<Rightarrow>
          (let b3 = b2\<lparr>servicesConn := (servicesConn b2)(c := None)\<rparr> in
           case removeConnFromMap c (subscriberMap b3) of
             (m1, es3) \<Rightarrow>
               (case removeConnFromMap c (subscriberMatchMap b3) of
                  (m2, es4) \<Rightarrow>
                    (let b4 = b3\<lparr>subscriberMap := m1, subscriberMatchMap := m2\<rparr>;
                         b5 = unspy c (slice (connSpies b4 c)) b4;
                         b6 = b5\<lparr>connSpies := (connSpies b5)(c := None)\<rparr>
                     in (b6, es2 @ es3 @ es4 @ [Publish logCloseConnection (ConnJSON c)])))))"

definition handle ::
  "handlers \<Rightarrow> codec \<Rightarrow> (conn \<Rightarrow> bool) \<Rightarrow> conn \<Rightarrow> recv list \<Rightarrow> broker
     \<Rightarrow> bool \<times> broker \<times> event list" where
  "handle H cd closeErr c rs b =
     (let es0 = [Log Info ''[Broker] Connection opened: %s'', Publish logNewConnection (ConnJSON c)];
          b0 = b\<lparr>connList := connList b @ [c]\<rparr>
      in case handleLoop H cd c rs b0 of
           (brk, b1, es1) \<Rightarrow>
             if brk then
               (case teardown closeErr c b1 of (b2, es2) \<Rightarrow> (True, b2, es0 @ es1 @ es2))
             else (False, b1, es0 @ es1))"

section \<open>The broker's Subscribe and Publish handlers\<close>

text \<open>
  Modelled from the spec: \<open>handleSubscribe\<close> and \<open>handlePublish\<close> of the broker are
  not among the sources. A specifier that is a literal event name goes to the exact-match
  table, any other to the pattern table; duplicate entries are kept. What counts as a
  literal (\<open>literal\<close>) and which events a pattern matches (\<open>matches\<close>) belong to the
  regular expression library and are parameters.
\<close>

fun appendSub :: "string \<Rightarrow> conn \<Rightarrow> (string \<times> conn list) list \<Rightarrow> (string \<times> conn list) list" where
  "appendSub key c [] = [(key, [c])]"
| "appendSub key c ((k, subs) # rest) =
     (if k = key then (k, subs @ [c]) # rest else (k, subs) # appendSub key c rest)"

definition handleSubscribe ::
  "(string \<Rightarrow> bool) \<Rightarrow> conn \<Rightarrow> Subscribe \<Rightarrow> broker \<Rightarrow> broker \<times> event list" where
  "handleSubscribe literal c sub b =
     (if literal (subscribe_Event sub)
      then b\<lparr>subscriberMap := appendSub (subscribe_Event sub) c (subscriberMap b)\<rparr>
      else b\<lparr>subscriberMatchMap := appendSub (subscribe_Event sub) c (subscriberMatchMap b)\<rparr>,
      [Publish ''log.new_subscriber'' (SubscriberJSON (subscribe_Event sub) c)])"

text \<open>
  Modelled from the spec: the subscribers of an event are the entries of the exact-match
  table under its name, then the entries of every pattern that matches it; the raw bytes
  go once to each entry.
\<close>

definition subscribersOf ::
  "(string \<Rightarrow> string \<Rightarrow> bool) \<Rightarrow> string \<Rightarrow> broker \<Rightarrow> conn list" where
  "subscribersOf matches ev b =
     slice (map_of (subscriberMap b) ev)
     @ concat (map snd (filter (\<lambda>p. matches (fst p) ev) (subscriberMatchMap b)))"

definition handlePublish ::
  "(string \<Rightarrow> string \<Rightarrow> bool) \<Rightarrow> conn \<Rightarrow> bytes \<Rightarrow> Publication \<Rightarrow> broker \<Rightarrow> broker \<times> event list" where
  "handlePublish matches c msgRaw pub b =
     (b, map (\<lambda>s. SendRaw s msgRaw) (subscribersOf matches (publish_Event pub) b))"

section \<open>The client\<close>

datatype panic =
    NilDereference
  | CouldNotMarshalRequest
  | DuplicateRequestId "64 word"
  | NoSuchService string
  | CouldNotMarshalJSON
  | CouldNotMarshalPublish
  | HandlerPanic

record subscriber =
  eventPattern :: string
  sub_handle :: nat

record clientService =
  cs_Name :: string
  cs_Identification :: string

text \<open>
  What the client does besides updating its fields: logging, writing a message on its
  connection, sending a reply into a channel, calling a subscriber's handler.
\<close>

datatype cevent =
    CLog level string
  | CSend Message
  | ChanSend nat Reply
  | Invoke nat string bytes

record client =
  services :: "string \<rightharpoonup> (string \<rightharpoonup> clientService)"
  subscribers :: "subscriber list"
  currentRequestId :: "64 word"
  requestsInFlight :: "64 word \<rightharpoonup> nat"

text \<open>
  The libraries the client calls and the method \<open>handleRequest\<close> of the client's
  service type, which is not among the sources, are parameters. A marshaller whose error
  the client ignores is total; \<open>serviceHandleRequest\<close> receives the service pointer the
  table lookup gave, \<open>None\<close> when it is nil.
\<close>

record clientEnv =
  marshalRequest :: "Request \<Rightarrow> bytes option"
  marshalReply :: "Reply \<Rightarrow> bytes"
  marshalRegister :: "Register \<Rightarrow> bytes"
  marshalSubscribe :: "Subscribe \<Rightarrow> bytes option"
  marshalPublish :: "Publication \<Rightarrow> bytes option"
  regexpMatch :: "string \<Rightarrow> string \<Rightarrow> bool"
  serviceHandleRequest ::
    "clientService option \<Rightarrow> Request \<Rightarrow> string \<Rightarrow> panic + (bytes \<times> string option)"

text \<open>
  \<open>sendRequestWaitForReply\<close> up to the point where it waits on the channel: the
  result holds the channel it then receives from. \<open>ch\<close> is the channel \<open>make\<close> returns.
\<close>

definition client_sendRequestWaitForReply ::
  "clientEnv \<Rightarrow> nat \<Rightarrow> Request \<Rightarrow> client \<Rightarrow> panic + (client \<times> cevent list \<times> nat)" where
  "client_sendRequestWaitForReply env ch req c =
     (case request_Id req of
        None \<Rightarrow> Inl NilDereference
      | Some old \<Rightarrow>
          (let newId = currentRequestId c + 1;
               c1 = c\<lparr>currentRequestId := newId\<rparr>;
               req1 = req\<lparr>request_Id := Some newId\<rparr>
           in case marshalRequest env req1 of
                None \<Rightarrow> Inl CouldNotMarshalRequest
              | Some reqBytes \<Rightarrow>
                  (case requestsInFlight c1 newId of
                     Some other \<Rightarrow> Inl (DuplicateRequestId newId)
                   | None \<Rightarrow>
                       Inr (c1\<lparr>requestsInFlight := (requestsInFlight c1)(newId \<mapsto> ch)\<rparr>,
                            [CSend \<lparr>msg_Type = Message_Request, msg_Content = reqBytes\<rparr>],
                            ch))))"

text \<open>
  \<open>handleRequest\<close> of the client returns the reply bytes and an error, or panics. The
  debug line it logs first is not part of the result.
\<close>

definition client_handleRequest ::
  "clientEnv \<Rightarrow> Request \<Rightarrow> client \<Rightarrow> panic + (bytes \<times> string option)" where
  "client_handleRequest env req c =
     (case (request_ServiceName req, request_Method req, request_Id req,
            request_ServiceIdentification req) of
        (Some name, Some method, Some ident, Some sid) \<Rightarrow>
          (case services c name of
             None \<Rightarrow> Inl (NoSuchService name)
           | Some idents \<Rightarrow>
               if dom idents = {} then Inl (NoSuchService name)
               else serviceHandleRequest env (idents sid) req method)
      | _ \<Rightarrow> Inl NilDereference)"

definition client_handleRequestReply ::
  "clientEnv \<Rightarrow> Request \<Rightarrow> client \<Rightarrow> panic + cevent list" where
  "client_handleRequestReply env req c =
     (case client_handleRequest env req c of
        Inl p \<Rightarrow> Inl p
      | Inr (replyBytes, err) \<Rightarrow>
          (case request_Id req of
             None \<Rightarrow> Inl NilDereference
           | Some ident \<Rightarrow>
               Inr [CSend \<lparr>msg_Type = Message_Reply,
                          msg_Content = marshalReply env
                            \<lparr>reply_Id = ident, reply_Data = replyBytes,
                             reply_Error = map_option (\<lambda>what. (Reply_Error_Custom, what)) err\<rparr>\<rparr>]))"

definition client_handleReply :: "Reply \<Rightarrow> client \<Rightarrow> string option \<times> cevent list" where
  "client_handleReply rep c =
     (case requestsInFlight c (reply_Id rep) of
        None \<Rightarrow> (Some ''Could not find request matching reply: %s'', [])
      | Some replyChan \<Rightarrow> (None, [ChanSend replyChan rep]))"

fun callSubscribers :: "clientEnv \<Rightarrow> string \<Rightarrow> bytes \<Rightarrow> subscriber list \<Rightarrow> cevent list" where
  "callSubscribers env eventName d [] = []"
| "callSubscribers env eventName d (h # hs) =
     (if regexpMatch env (eventPattern h) eventName
      then [CLog Debug ''[Publish] %v matched %s'', Invoke (sub_handle h) eventName d]
      else [])
     @ callSubscribers env eventName d hs"

definition client_handlePublish :: "clientEnv \<Rightarrow> Publication \<Rightarrow> client \<Rightarrow> cevent list" where
  "client_handlePublish env pub c =
     CLog Info ''[Publish] received: %s''
     # callSubscribers env (publish_Event pub) (publish_Data pub) (subscribers c)"

text \<open>The client dereferences the pointer to the tag: the message has a tag.\<close>

definition client_handleMessage ::
  "clientEnv \<Rightarrow> codec \<Rightarrow> Message \<Rightarrow> client \<Rightarrow> panic + (string option \<times> cevent list)" where
  "client_handleMessage env cd m c =
     (case msg_Type m of
        Message_Request \<Rightarrow>
          (case unmarshalRequest cd (msg_Content m) of
             None \<Rightarrow> Inr (Some ''Could not unmarshal request: %s'', [])
           | Some request \<Rightarrow>
               (case client_handleRequestReply env request c of
                  Inl p \<Rightarrow> Inl p
                | Inr es \<Rightarrow> Inr (None, es)))
      | Message_Publish \<Rightarrow>
          (case unmarshalPublish cd (msg_Content m) of
             None \<Rightarrow> Inr (Some ''Could not unmarshal publish: %s'', [])
           | Some pub \<Rightarrow> Inr (None, client_handlePublish env pub c))
      | Message_Reply \<Rightarrow>
          (case unmarshalReply cd (msg_Content m) of
             None \<Rightarrow> Inr (Some ''Could not unmarshal reply: %s'', [])
           | Some rep \<Rightarrow> Inr (client_handleReply rep c))
      | Message_Subscribe \<Rightarrow> Inr (Some ''Client received unsupported message type: %d'', [])
      | Message_Register \<Rightarrow> Inr (Some ''Client received unsupported message type: %d'', [])
      | Message_Other n \<Rightarrow> Inr (Some ''Unknown message type: %d'', []))"

definition client_RegisterService :: "clientEnv \<Rightarrow> clientService \<Rightarrow> client \<Rightarrow> client \<times> cevent list" where
  "client_RegisterService env s c =
     (let inner = (case services c (cs_Name s) of None \<Rightarrow> Map.empty | Some m \<Rightarrow> m) in
      (c\<lparr>services := (services c)(cs_Name s \<mapsto> inner(cs_Identification s \<mapsto> s))\<rparr>,
       [CSend \<lparr>msg_Type = Message_Register,
               msg_Content = marshalRegister env
                 \<lparr>register_Name = cs_Name s, register_Identification = cs_Identification s\<rparr>\<rparr>,
        CLog Info ''Service %s registered'']))"

text \<open>\<open>dataJSON\<close> is what \<open>json.Marshal\<close> makes of the data, \<open>None\<close> when it fails.\<close>

definition client_Publish ::
  "clientEnv \<Rightarrow> string \<Rightarrow> bytes option \<Rightarrow> client \<Rightarrow> panic + cevent list" where
  "client_Publish env ev dataJSON c =
     (case dataJSON of
        None \<Rightarrow> Inl CouldNotMarshalJSON
      | Some dataBytes \<Rightarrow>
          (case marshalPublish env \<lparr>publish_Event = ev, publish_Data = dataBytes\<rparr> of
             None \<Rightarrow> Inl CouldNotMarshalPublish
           | Some pubBytes \<Rightarrow>
               Inr [CLog Debug ''[Publish] %s(%#v)'',
                    CSend \<lparr>msg_Type = Message_Publish, msg_Content = pubBytes\<rparr>]))"

definition client_Subscribe ::
  "clientEnv \<Rightarrow> string \<Rightarrow> nat \<Rightarrow> client \<Rightarrow> string option \<times> client \<times> cevent list" where
  "client_Subscribe env pat handler c =
     (let c1 = c\<lparr>subscribers := subscribers c @ [\<lparr>eventPattern = pat, sub_handle = handler\<rparr>]\<rparr>;
          es = [CLog Debug ''[Subscribe] Adding subsriber %p to event pattern: %s'']
      in case marshalSubscribe env \<lparr>subscribe_Event = pat\<rparr> of
           None \<Rightarrow> (Some ''Could not marshal subscribe: %s'', c1, es)
         | Some subBytes \<Rightarrow>
             (None, c1, es @ [CSend \<lparr>msg_Type = Message_Subscribe, msg_Content = subBytes\<rparr>]))"

text \<open>
  One operation on the client: a call of one of its methods, or a message that its
  receiving goroutine hands to \<open>handleMessage\<close>. A run is a sequence of operations that
  stops at the first panic.
\<close>

datatype clientOp =
    OpSendRequest nat Request
  | OpMessage Message
  | OpRegisterService clientService
  | OpPublish string "bytes option"
  | OpSubscribe string nat

fun client_step :: "clientEnv \<Rightarrow> codec \<Rightarrow> clientOp \<Rightarrow> client \<Rightarrow> panic + (client \<times> cevent list)" where
  "client_step env cd (OpSendRequest ch req) c =
     (case client_sendRequestWaitForReply env ch req c of
        Inl p \<Rightarrow> Inl p
      | Inr (c1, es, w) \<Rightarrow> Inr (c1, es))"
| "client_step env cd (OpMessage m) c =
     (case client_handleMessage env cd m c of
        Inl p \<Rightarrow> Inl p
      | Inr (e, es) \<Rightarrow> Inr (c, es))"
| "client_step env cd (OpRegisterService s) c = Inr (client_RegisterService env s c)"
| "client_step env cd (OpPublish ev d) c =
     (case client_Publish env ev d c of
        Inl p \<Rightarrow> Inl p
      | Inr es \<Rightarrow> Inr (c, es))"
| "client_step env cd (OpSubscribe pat h) c =
     (case client_Subscribe env pat h c of (e, c1, es) \<Rightarrow> Inr (c1, es))"

fun client_run :: "clientEnv \<Rightarrow> codec \<Rightarrow> clientOp list \<Rightarrow> client \<Rightarrow> panic + (client \<times> cevent list)" where
  "client_run env cd [] c = Inr (c, [])"
| "client_run env cd (op # ops) c =
     (case client_step env cd op c of
        Inl p \<Rightarrow> Inl p
      | Inr (c1, es) \<Rightarrow>
          (case client_run env cd ops c1 of
             Inl p \<Rightarrow> Inl p
           | Inr (c2, es2) \<Rightarrow> Inr (c2, es @ es2)))"

text \<open>The handler calls of a trace, in order.\<close>

fun invocations :: "cevent list \<Rightarrow> (nat \<times> string \<times> bytes) list" where
  "invocations [] = []"
| "invocations (Invoke h n d # es) = (h, n, d) # invocations es"
| "invocations (e # es) = invocations es"

text \<open>
  The id of the Reply that a frame carries for the one who receives it: the frame is
  decoded as a Message, its content as a Reply, and the id is read.
\<close>

definition replyIdOf :: "codec \<Rightarrow> bytes \<Rightarrow> 64 word option" where
  "replyIdOf cd frame =
     (case unmarshalMessage cd frame of
        None \<Rightarrow> None
      | Some m \<Rightarrow> map_option reply_Id (unmarshalReply cd (msg_Content m)))"

section \<open>Observations and examples\<close>

text \<open>The timers a trace stops, in order.\<close>

fun timerStops :: "event list \<Rightarrow> nat list" where
  "timerStops [] = []"
| "timerStops (TimerStop n # es) = n # timerStops es"
| "timerStops (e # es) = timerStops es"

text \<open>The broker that \<open>New\<close> returns: every table is empty.\<close>

definition New :: broker where
  "New = \<lparr>connList = [], connNameMap = Map.empty, connSpies = Map.empty, Services = Map.empty,
          servicesConn = Map.empty, reqIds = Map.empty, subscriberMap = [],
          subscriberMatchMap = [],
          heap = (\<lambda>a. \<lparr>Name = [], Identification = [], Spies = []\<rparr>)\<rparr>"

text \<open>
  A running example. Connection 1 has sent a request which carried the id 7 and which
  the broker tracks under the id 5; connections 3 and 4 spied the service at that time.
  \<open>frame5\<close> is the frame of a Reply with the id 5 and no data: a Message with the tag 3
  whose content is the two bytes of that Reply. \<open>codec5\<close> is the decoder restricted to
  this frame.
\<close>

definition tracker5 :: requestTracking where
  "tracker5 = \<lparr>sender = 1, timer = 0, spies = [3, 4], start = 0, latencyObserver = 0,
               clientId = 7\<rparr>"

definition broker5 :: broker where
  "broker5 = New\<lparr>connList := [1, 2, 3, 4], reqIds := [5 \<mapsto> tracker5]\<rparr>"

definition reply5 :: Reply where
  "reply5 = \<lparr>reply_Id = 5, reply_Data = [], reply_Error = None\<rparr>"

definition frame5 :: bytes where
  "frame5 = [0x08, 0x03, 0x12, 0x02, 0x08, 0x05]"

definition codec5 :: codec where
  "codec5 =
     \<lparr>unmarshalMessage =
        (\<lambda>f. if f = frame5 then Some \<lparr>msg_Type = Message_Reply, msg_Content = [0x08, 0x05]\<rparr>
              else None),
      unmarshalRegister = (\<lambda>f. None),
      unmarshalRequest = (\<lambda>f. None),
      unmarshalReply = (\<lambda>f. if f = [0x08, 0x05] then Some reply5 else None),
      unmarshalSubscribe = (\<lambda>f. None),
      unmarshalPublish = (\<lambda>f. None)\<rparr>"

text \<open>A service is registered when the service table has an entry under its name and identification.\<close>

definition registered :: "broker \<Rightarrow> string \<Rightarrow> string \<Rightarrow> bool" where
  "registered b n i = (case Services b n of None \<Rightarrow> False | Some m \<Rightarrow> m i \<noteq> None)"

text \<open>
  A second example: connection 1 owns the service math, stored at address 0, and
  connection 3 spies it.
\<close>

definition broker7 :: broker where
  "broker7 = New\<lparr>connList := [1, 2, 3],
                 Services := [''math'' \<mapsto> [[] \<mapsto> 0]],
                 servicesConn := [1 \<mapsto> [0]],
                 connSpies := [3 \<mapsto> [0]],
                 heap := (heap New)(0 := \<lparr>Name = ''math'', Identification = [], Spies = [3]\<rparr>)\<rparr>"

text \<open>
  Examples for the dispatch loop: handlers that leave the broker as it is, a message
  whose tag is none of the five, the result of receiving it, and the result of
  receiving the close of the stream.
\<close>

definition idleHandlers :: handlers where
  "idleHandlers =
     \<lparr>onRegister = (\<lambda>c r b. (b, [])), onRequest = (\<lambda>c m r b. (b, [])),
      onSubscribe = (\<lambda>c s b. (b, [])), onPublish = (\<lambda>c m p b. (b, []))\<rparr>"

definition strayMessage :: Message where
  "strayMessage = \<lparr>msg_Type = Message_Other 9, msg_Content = []\<rparr>"

definition strayRecv :: recv where
  "strayRecv = \<lparr>recv_closed = False, recv_msgBytes = [0x08, 0x09], recv_msg = strayMessage,
                recv_err = None\<rparr>"

definition closeRecv :: recv where
  "closeRecv = \<lparr>recv_closed = True, recv_msgBytes = [], recv_msg = strayMessage,
                recv_err = None\<rparr>"

text \<open>
  Examples for the client: a pattern \<open>foo\..*\<close>, a matcher that knows this pattern and
  the literal e, libraries that marshal everything to the empty slice, and a client with
  one subscriber for the pattern and one request in flight under the id 42.
\<close>

definition fooPattern :: string where
  "fooPattern = ''foo'' @ [CHR 0x5C] @ ''..*''"

definition fooMatch :: "string \<Rightarrow> string \<Rightarrow> bool" where
  "fooMatch pat ev = ((pat = fooPattern \<and> take 4 ev = ''foo.'') \<or> (pat = ''e'' \<and> ev = ''e''))"

definition env0 :: clientEnv where
  "env0 =
     \<lparr>marshalRequest = (\<lambda>r. Some []), marshalReply = (\<lambda>r. []), marshalRegister = (\<lambda>r. []),
      marshalSubscribe = (\<lambda>s. Some []), marshalPublish = (\<lambda>p. Some []),
      regexpMatch = fooMatch,
      serviceHandleRequest = (\<lambda>s r m. Inr ([], None))\<rparr>"

definition client0 :: client where
  "client0 =
     \<lparr>services = [''idle'' \<mapsto> Map.empty],
      subscribers = [\<lparr>eventPattern = fooPattern, sub_handle = 0\<rparr>],
      currentRequestId = 41,
      requestsInFlight = [42 \<mapsto> 0]\<rparr>"

definition request0 :: Request where
  "request0 =
     \<lparr>request_Id = Some 0, request_ServiceName = Some ''idle'',
      request_ServiceIdentification = Some [], request_Method = Some ''ping'',
      request_Data = []\<rparr>"

text \<open>
  The slice that the table holds under the key when the inner loop of
  \<open>removeConnFromMap\<close> is in the given state; none once the key is deleted.
\<close>

definition stored :: "conn list \<times> nat option \<times> event list \<Rightarrow> conn list" where
  "stored s = (case fst (snd s) of None \<Rightarrow> [] | Some l \<Rightarrow> take l (fst s))"

section \<open>Helper lemmas\<close>

lemma sends_append: "sends (xs @ ys) = sends xs @ sends ys"
  by (induction xs rule: sends.induct) simp_all

lemma sends_forwardToSpies: "sends (forwardToSpies sps m) = map (\<lambda>spy. (spy, m)) sps"
  by (induction sps) (simp_all add: forwardToSpies_def)

lemma sends_handleReply:
  "reqIds b (reply_Id rep) = Some t \<Longrightarrow>
   sends (snd (handleReply c msgRaw rep b))
     = map (\<lambda>spy. (spy, msgRaw)) (spies t) @ [(sender t, msgRaw)]"
  by (simp add: handleReply_def sends_append sends_forwardToSpies)

lemma handleReply_unknown:
  "reqIds b (reply_Id rep) = None \<Longrightarrow>
   handleReply c msgRaw rep b
     = (b, [Log Info ''[Reply] id:%d reply from %s'', Log Error ''[Reply] Unknown ID: %d''])"
  by (simp add: handleReply_def)

lemma handleReply_forgets: "reqIds (fst (handleReply c msgRaw rep b)) (reply_Id rep) = None"
  by (cases "reqIds b (reply_Id rep)") (simp_all add: handleReply_def)

lemma receivedBy_handleReply:
  "reqIds b (reply_Id rep) = Some t \<Longrightarrow>
   set (receivedBy (sender t) (snd (handleReply c msgRaw rep b))) = {msgRaw}"
  by (auto simp: sends_handleReply receivedBy_def)

lemma reqIds_removeServices: "reqIds (fst (removeServices ce as b)) = reqIds b"
  by (induction as arbitrary: b) (simp_all add: Let_def split_beta)

lemma reqIds_unspy: "reqIds (unspy c as b) = reqIds b"
  by (induction as arbitrary: b) simp_all

lemma reqIds_teardown: "reqIds (fst (teardown ce c b)) = reqIds b"
  by (simp add: teardown_def Let_def split_beta reqIds_unspy reqIds_removeServices)

lemma timerStops_append: "timerStops (xs @ ys) = timerStops xs @ timerStops ys"
  by (induction xs rule: timerStops.induct) simp_all

lemma timerStops_closeSpies: "timerStops (closeSpies ce cs) = []"
  by (induction cs) (simp_all add: timerStops_append)

lemma timerStops_removeServices: "timerStops (snd (removeServices ce as b)) = []"
  by (induction as arbitrary: b)
     (simp_all add: Let_def split_beta timerStops_append timerStops_closeSpies)

lemma timerStops_scanSubs:
  "timerStops (snd (snd s)) = [] \<Longrightarrow> timerStops (snd (snd (scanSubs c key k i s))) = []"
  by (induction c key k i s rule: scanSubs.induct) (simp_all add: Let_def timerStops_append)

lemma timerStops_removeConnFromMap: "timerStops (snd (removeConnFromMap c m)) = []"
proof (induction m)
  case Nil
  then show ?case by simp
next
  case (Cons p m)
  obtain key subs where p: "p = (key, subs)" by (cases p)
  have "timerStops (snd (snd (scanSubs c key (length subs) 0 (subs, Some (length subs), [])))) = []"
    by (rule timerStops_scanSubs) simp
  with Cons show ?case
    by (simp add: p split_beta timerStops_append)
qed

lemma timerStops_teardown: "timerStops (snd (teardown ce c b)) = []"
  by (simp add: teardown_def Let_def split_beta timerStops_append timerStops_removeServices
      timerStops_removeConnFromMap)

lemma broker5_tracker: "reqIds broker5 (reply_Id reply5) = Some tracker5"
  by (simp add: broker5_def reply5_def New_def)

lemma heap_removeServices: "heap (fst (removeServices ce as b)) = heap b"
  by (induction as arbitrary: b) (simp_all add: Let_def split_beta)

lemma registered_deleteService:
  "registered (b\<lparr>Services := deleteService (Services b) n i\<rparr>) n' i' \<Longrightarrow> registered b n' i'"
  by (auto simp: registered_def deleteService_def split: option.splits if_splits)

lemma not_registered_deleteService:
  "\<not> registered (b\<lparr>Services := deleteService (Services b) n i\<rparr>) n i"
  by (auto simp: registered_def deleteService_def split: option.splits)

lemma registered_removeServices:
  "registered (fst (removeServices ce as b)) n i \<Longrightarrow> registered b n i"
proof (induction as arbitrary: b)
  case Nil
  then show ?case by simp
next
  case (Cons a as)
  from Cons.prems
  have "registered (fst (removeServices ce as
      (b\<lparr>Services := deleteService (Services b) (Name (heap b a)) (Identification (heap b a))\<rparr>))) n i"
    by (simp add: Let_def split_beta)
  then show ?case
    using Cons.IH registered_deleteService by blast
qed

lemma removeServices_unregisters:
  "a \<in> set as \<Longrightarrow>
   \<not> registered (fst (removeServices ce as b)) (Name (heap b a)) (Identification (heap b a))"
proof (induction as arbitrary: b)
  case Nil
  then show ?case by simp
next
  case (Cons x as)
  let ?b1 = "b\<lparr>Services := deleteService (Services b) (Name (heap b x)) (Identification (heap b x))\<rparr>"
  have step: "fst (removeServices ce (x # as) b) = fst (removeServices ce as ?b1)"
    by (simp add: Let_def split_beta)
  show ?case
  proof (cases "a = x")
    case True
    have "\<not> registered ?b1 (Name (heap b x)) (Identification (heap b x))"
      by (rule not_registered_deleteService)
    then show ?thesis
      unfolding step True using registered_removeServices by blast
  next
    case False
    with Cons.prems have "a \<in> set as" by simp
    from Cons.IH [OF this, of ?b1] show ?thesis
      unfolding step by simp
  qed
qed

lemma ConnClose_closeSpies: "x \<in> set cs \<Longrightarrow> ConnClose x \<in> set (closeSpies ce cs)"
  by (induction cs) auto

lemma removeServices_events:
  "a \<in> set as \<Longrightarrow>
   Publish logLostService (ServiceJSON (heap b a)) \<in> set (snd (removeServices ce as b))
   \<and> (\<forall>x \<in> set (Spies (heap b a)). ConnClose x \<in> set (snd (removeServices ce as b)))"
proof (induction as arbitrary: b)
  case Nil
  then show ?case by simp
next
  case (Cons x as)
  let ?b1 = "b\<lparr>Services := deleteService (Services b) (Name (heap b x)) (Identification (heap b x))\<rparr>"
  have step: "snd (removeServices ce (x # as) b)
      = [Log Info ''[Services] Remove %s'', Publish logLostService (ServiceJSON (heap b x))]
        @ closeSpies ce (Spies (heap b x)) @ snd (removeServices ce as ?b1)"
    by (simp add: Let_def split_beta)
  show ?case
  proof (cases "a = x")
    case True
    then show ?thesis
      unfolding step by (auto simp: ConnClose_closeSpies)
  next
    case False
    with Cons.prems have "a \<in> set as" by simp
    from Cons.IH [OF this, of ?b1] show ?thesis
      unfolding step by auto
  qed
qed

lemma Services_unspy: "Services (unspy c as b) = Services b"
  by (induction as arbitrary: b) simp_all

lemma registered_teardown:
  "registered (fst (teardown ce c b)) n i
   = registered (fst (removeServices ce (slice (servicesConn b c))
       (b\<lparr>connList := remove1 c (connList b), connNameMap := (connNameMap b)(c := None)\<rparr>))) n i"
  by (simp add: teardown_def Let_def split_beta registered_def Services_unspy)

lemma events_teardown:
  "\<exists>es. snd (teardown ce c b)
     = snd (removeServices ce (slice (servicesConn b c))
         (b\<lparr>connList := remove1 c (connList b), connNameMap := (connNameMap b)(c := None)\<rparr>))
       @ es @ [Publish logCloseConnection (ConnJSON c)]"
  by (simp add: teardown_def Let_def split_beta)

lemma handleMessage_error_iff:
  "(fst (handleMessage H cd c mb m b) \<noteq> None) = (\<not> decodes cd m)"
  by (cases "msg_Type m")
     (simp_all add: handleMessage_def decodes_def handled_def Let_def split: option.splits)

lemma handleMessage_undecoded:
  "\<not> decodes cd m \<Longrightarrow>
   fst (snd (handleMessage H cd c mb m b)) = b
   \<and> sends (snd (snd (handleMessage H cd c mb m b))) = []
   \<and> handleMessage H cd c mb m b = handleMessage H2 cd c mb m b"
  by (cases "msg_Type m")
     (simp_all add: handleMessage_def decodes_def handled_def Let_def logUnmarshalError_def
        split: option.splits)

lemma handleLoop_breaks: "fst (handleLoop H cd c rs b) = list_ex recv_closed rs"
  by (induction rs arbitrary: b) (simp_all add: Let_def split_beta)

lemma handleLoop_stops_at_close:
  "recv_closed r \<Longrightarrow> \<not> list_ex recv_closed rs \<Longrightarrow>
   handleLoop H cd c (rs @ r # rest) b = handleLoop H cd c (rs @ [r]) b"
  by (induction rs arbitrary: b) (simp_all add: Let_def split_beta)

lemma handleLoop_continues:
  "\<not> recv_closed r \<Longrightarrow>
   fst (snd (handleLoop H cd c (r # rs) b))
     = fst (snd (handleLoop H cd c rs (fst (snd (handleMessage H cd c (recv_msgBytes r) (recv_msg r) b)))))"
  by (simp add: Let_def split_beta)

lemma handle_tears_down: "fst (handle H cd ce c rs b) = list_ex recv_closed rs"
  using handleLoop_breaks [of H cd c rs "b\<lparr>connList := connList b @ [c]\<rparr>"]
  by (simp add: handle_def Let_def split_beta)

lemma sendRequest_grows:
  "client_sendRequestWaitForReply env ch req c = Inr (c1, es, w) \<Longrightarrow>
   requestsInFlight c \<subseteq>\<^sub>m requestsInFlight c1"
  by (auto simp: client_sendRequestWaitForReply_def Let_def map_le_def split: option.splits)

lemma client_step_grows:
  "client_step env cd op c = Inr (c1, es) \<Longrightarrow> requestsInFlight c \<subseteq>\<^sub>m requestsInFlight c1"
proof (cases op)
  case (OpSendRequest ch req)
  assume "client_step env cd op c = Inr (c1, es)"
  then show ?thesis
    using sendRequest_grows [of env ch req c c1]
    by (auto simp: OpSendRequest split: sum.splits)
next
  case (OpMessage m)
  assume "client_step env cd op c = Inr (c1, es)"
  then show ?thesis by (auto simp: OpMessage split: sum.splits)
next
  case (OpRegisterService s)
  assume "client_step env cd op c = Inr (c1, es)"
  then show ?thesis by (auto simp: OpRegisterService client_RegisterService_def Let_def)
next
  case (OpPublish ev d)
  assume "client_step env cd op c = Inr (c1, es)"
  then show ?thesis by (auto simp: OpPublish split: sum.splits)
next
  case (OpSubscribe pat h)
  assume "client_step env cd op c = Inr (c1, es)"
  then show ?thesis
    by (auto simp: OpSubscribe client_Subscribe_def Let_def split: option.splits)
qed

lemma client_run_grows:
  "client_run env cd ops c = Inr (c1, es) \<Longrightarrow> requestsInFlight c \<subseteq>\<^sub>m requestsInFlight c1"
proof (induction ops arbitrary: c es)
  case Nil
  then show ?case by simp
next
  case (Cons op ops)
  from Cons.prems obtain c2 es2 es3 where
    s: "client_step env cd op c = Inr (c2, es2)" and r: "client_run env cd ops c2 = Inr (c1, es3)"
    by (auto split: sum.splits)
  from client_step_grows [OF s] Cons.IH [OF r] show ?case
    by (rule map_le_trans)
qed

lemma map_of_appendSub:
  "map_of (appendSub key c m) k
     = (if k = key then Some (slice (map_of m key) @ [c]) else map_of m k)"
  by (induction m) (auto simp: slice_def)

lemma appendSub_has: "\<exists>subs. (key, subs) \<in> set (appendSub key c m) \<and> c \<in> set subs"
proof (induction m)
  case Nil
  then show ?case by simp
next
  case (Cons x m)
  obtain k v where x: "x = (k, v)" by (cases x)
  show ?case
  proof (cases "k = key")
    case True
    then have "(key, v @ [c]) \<in> set (appendSub key c (x # m))" by (simp add: x)
    then show ?thesis by fastforce
  next
    case False
    with Cons.IH show ?thesis by (auto simp: x)
  qed
qed

lemma invocations_append: "invocations (xs @ ys) = invocations xs @ invocations ys"
  by (induction xs rule: invocations.induct) simp_all

lemma invocations_callSubscribers:
  "invocations (callSubscribers env n d hs)
     = map (\<lambda>h. (sub_handle h, n, d)) (filter (\<lambda>h. regexpMatch env (eventPattern h) n) hs)"
  by (induction hs) (simp_all add: invocations_append)

lemma sends_map_SendRaw: "sends (map (\<lambda>s. SendRaw s m) cs) = map (\<lambda>s. (s, m)) cs"
  by (induction cs) simp_all

lemma receivedBy_publish:
  "receivedBy a (snd (handlePublish matches c raw pub b))
     = replicate (count_list (subscribersOf matches (publish_Event pub) b) a) raw"
proof -
  have "map snd (filter (\<lambda>p. fst p = a) (map (\<lambda>s. (s, raw)) cs)) = replicate (count_list cs a) raw" for cs
    by (induction cs) simp_all
  then show ?thesis
    by (simp add: handlePublish_def receivedBy_def sends_map_SendRaw)
qed

lemma scanSubs_idle:
  "(\<forall>j. i \<le> j \<and> j < i + k \<longrightarrow> arr ! j \<noteq> c) \<Longrightarrow>
   scanSubs c key k i (arr, cur, es) = (arr, cur, es)"
proof (induction k arbitrary: i)
  case 0
  then show ?case by simp
next
  case (Suc k)
  have "arr ! i \<noteq> c" using Suc.prems by simp
  moreover have "scanSubs c key k (Suc i) (arr, cur, es) = (arr, cur, es)"
    using Suc.prems by (intro Suc.IH) simp
  ultimately show ?case by simp
qed

lemma once_unique:
  "count_list xs c \<le> 1 \<Longrightarrow> i < length xs \<Longrightarrow> j < length xs \<Longrightarrow> xs ! i = c \<Longrightarrow> xs ! j = c
   \<Longrightarrow> i = j"
proof (induction xs arbitrary: i j)
  case Nil
  then show ?case by simp
next
  case (Cons x xs)
  show ?case
  proof (cases "x = c")
    case True
    with Cons.prems(1) have "count_list xs c = 0" by simp
    then have no: "c \<notin> set xs" by (simp add: count_list_0_iff)
    have "i = 0" using Cons.prems(2,4) no by (cases i) auto
    moreover have "j = 0" using Cons.prems(3,5) no by (cases j) auto
    ultimately show ?thesis by simp
  next
    case False
    with Cons.prems obtain i' j' where "i = Suc i'" "j = Suc j'"
      by (cases i; cases j) auto
    with Cons.prems False Cons.IH [of i' j'] show ?thesis by simp
  qed
qed

lemma scanSubs_once:
  "i + k = length arr \<Longrightarrow> c \<notin> set (take i arr) \<Longrightarrow> count_list arr c \<le> 1 \<Longrightarrow>
   c \<notin> set (stored (scanSubs c key k i (arr, Some (length arr), es)))"
proof (induction k arbitrary: i)
  case 0
  then show ?case by (simp add: stored_def)
next
  case (Suc k)
  let ?n = "length arr"
  have i: "i < ?n" using Suc.prems(1) by simp
  show ?case
  proof (cases "arr ! i = c")
    case False
    have "c \<notin> set (take (Suc i) arr)"
      using Suc.prems(2) False i by (simp add: take_Suc_conv_app_nth)
    with Suc.IH [of "Suc i"] Suc.prems False show ?thesis by simp
  next
    case True
    let ?arr1 = "arr[i := arr ! (?n - 1)]"
    have others: "j < ?n \<Longrightarrow> j \<noteq> i \<Longrightarrow> arr ! j \<noteq> c" for j
      using once_unique [OF Suc.prems(3) i _ True] by blast
    show ?thesis
    proof (cases "?n - 1 = 0")
      case True
      with \<open>arr ! i = c\<close> show ?thesis by (simp add: stored_def Let_def)
    next
      case False
      have "\<forall>j. Suc i \<le> j \<and> j < Suc i + k \<longrightarrow> ?arr1 ! j \<noteq> c"
        using others Suc.prems(1) by auto
      then have rest: "scanSubs c key k (Suc i) (?arr1, Some (?n - 1),
            es @ [Publish logLostSubscriber (SubscriberJSON key c)])
          = (?arr1, Some (?n - 1), es @ [Publish logLostSubscriber (SubscriberJSON key c)])"
        by (rule scanSubs_idle)
      have "c \<notin> set (take (?n - 1) ?arr1)"
      proof
        assume "c \<in> set (take (?n - 1) ?arr1)"
        then obtain j where j: "j < ?n - 1" "?arr1 ! j = c"
          by (auto simp: in_set_conv_nth)
        show False
        proof (cases "j = i")
          case True
          with j i have "arr ! (?n - 1) = c" by simp
          moreover have "?n - 1 \<noteq> i" using j True by simp
          moreover have "?n - 1 < ?n" using i by simp
          ultimately show False using others [of "?n - 1"] by blast
        next
          case False
          with j have "arr ! j = c" by simp
          moreover have "j < ?n" using j by simp
          ultimately show False using others [of j] False by blast
        qed
      qed
      with True False rest show ?thesis by (simp add: stored_def Let_def)
    qed
  qed
qed

lemma removeConnFromMap_once:
  "\<forall>p \<in> set m. count_list (snd p) c \<le> 1 \<Longrightarrow>
   \<forall>p \<in> set (fst (removeConnFromMap c m)). c \<notin> set (snd p)"
proof (induction m)
  case Nil
  then show ?case by simp
next
  case (Cons x m)
  obtain key subs where x: "x = (key, subs)" by (cases x)
  let ?s = "scanSubs c key (length subs) 0 (subs, Some (length subs), [])"
  have "c \<notin> set (stored ?s)"
    using Cons.prems by (intro scanSubs_once) (simp_all add: x)
  moreover have "\<forall>p \<in> set (fst (removeConnFromMap c m)). c \<notin> set (snd p)"
    using Cons by simp
  ultimately show ?case
    by (auto simp: x split_beta stored_def split: option.splits)
qed

lemma subscriberMap_removeServices:
  "subscriberMap (fst (removeServices ce as b)) = subscriberMap b
   \<and> subscriberMatchMap (fst (removeServices ce as b)) = subscriberMatchMap b"
  by (induction as arbitrary: b) (simp_all add: Let_def split_beta)

lemma subscriberMap_unspy:
  "subscriberMap (unspy c as b) = subscriberMap b
   \<and> subscriberMatchMap (unspy c as b) = subscriberMatchMap b"
  by (induction as arbitrary: b) simp_all

lemma subscriberMap_teardown:
  "subscriberMap (fst (teardown ce c b)) = fst (removeConnFromMap c (subscriberMap b))
   \<and> subscriberMatchMap (fst (teardown ce c b)) = fst (removeConnFromMap c (subscriberMatchMap b))"
  by (simp add: teardown_def Let_def split_beta subscriberMap_unspy subscriberMap_removeServices)

section \<open>Forwarding a Reply\<close>

text \<open>
  C4. When a Reply matches a tracker, the writes of \<open>handleReply\<close> are, in this order,
  one write of the raw reply bytes to each spy recorded in the tracker and then one
  write of the same bytes to the stored sender: every spy is served before the sender,
  no other connection is written to, and the bytes are those received. A sender that
  is not among the spies receives the bytes exactly once.
\<close>

theorem reply_forwarded_to_spies_then_sender:
  assumes "reqIds b (reply_Id rep) = Some t"
  shows "sends (snd (handleReply c msgRaw rep b))
           = map (\<lambda>spy. (spy, msgRaw)) (spies t) @ [(sender t, msgRaw)]
         \<and> (sender t \<notin> set (spies t) \<longrightarrow>
              receivedBy (sender t) (snd (handleReply c msgRaw rep b)) = [msgRaw])"
  using assms
  by (auto simp: sends_handleReply receivedBy_def filter_empty_conv intro!: filter_False)

theorem reply_forwarded_to_spies_then_sender_witness:
  "reqIds broker5 (reply_Id reply5) = Some tracker5
   \<and> sends (snd (handleReply 2 frame5 reply5 broker5)) = [(3, frame5), (4, frame5), (1, frame5)]
   \<and> receivedBy 1 (snd (handleReply 2 frame5 reply5 broker5)) = [frame5]"
proof -
  have h: "reqIds broker5 (reply_Id reply5) = Some tracker5"
    by (simp add: broker5_def reply5_def New_def)
  show ?thesis
    using h reply_forwarded_to_spies_then_sender [OF h, of 2 frame5]
    by (simp add: tracker5_def)
qed

text \<open>
  C5. A Reply whose id matches no tracker is logged and dropped: \<open>handleReply\<close> returns
  the broker unchanged and its trace holds the two log lines only, so nothing is written
  to any connection. A second Reply with the id of a first one is such a Reply, whatever
  became of the first.
\<close>

theorem unknown_reply_dropped:
  "(reqIds b (reply_Id rep) = None \<longrightarrow>
      handleReply c msgRaw rep b
        = (b, [Log Info ''[Reply] id:%d reply from %s'', Log Error ''[Reply] Unknown ID: %d'']))
   \<and> (reply_Id rep2 = reply_Id rep \<longrightarrow>
      handleReply c2 msgRaw2 rep2 (fst (handleReply c msgRaw rep b))
        = (fst (handleReply c msgRaw rep b),
           [Log Info ''[Reply] id:%d reply from %s'', Log Error ''[Reply] Unknown ID: %d'']))"
proof (intro conjI impI)
  assume "reqIds b (reply_Id rep) = None"
  then show "handleReply c msgRaw rep b
        = (b, [Log Info ''[Reply] id:%d reply from %s'', Log Error ''[Reply] Unknown ID: %d''])"
    by (rule handleReply_unknown)
next
  assume same: "reply_Id rep2 = reply_Id rep"
  have "reqIds (fst (handleReply c msgRaw rep b)) (reply_Id rep2) = None"
    unfolding same by (rule handleReply_forgets)
  then show "handleReply c2 msgRaw2 rep2 (fst (handleReply c msgRaw rep b))
        = (fst (handleReply c msgRaw rep b),
           [Log Info ''[Reply] id:%d reply from %s'', Log Error ''[Reply] Unknown ID: %d''])"
    by (rule handleReply_unknown)
qed

theorem unknown_reply_dropped_witness:
  "reqIds New (reply_Id reply5) = None
   \<and> handleReply 2 frame5 reply5 New
       = (New, [Log Info ''[Reply] id:%d reply from %s'', Log Error ''[Reply] Unknown ID: %d''])
   \<and> reply_Id reply5 = reply_Id reply5
   \<and> sends (snd (handleReply 2 frame5 reply5 (fst (handleReply 2 frame5 reply5 broker5)))) = []"
proof -
  have h: "reqIds New (reply_Id reply5) = None"
    by (simp add: New_def)
  show ?thesis
    using h unknown_reply_dropped [of New reply5 2 frame5 reply5 2 frame5]
      unknown_reply_dropped [of broker5 reply5 2 frame5 reply5 2 frame5]
    by simp
qed

text \<open>
  C1, as the code has it. For a Reply whose id matches a tracker, the broker forwards the
  raw bytes it received to the stored sender and rewrites nothing: every frame the
  sender receives from \<open>handleReply\<close> is the frame the replying service sent, so the
  Reply in it carries the id under which the tracker was found.
\<close>

theorem reply_forwarded_verbatim:
  assumes "reqIds b (reply_Id rep) = Some t"
  shows "set (receivedBy (sender t) (snd (handleReply c msgRaw rep b))) = {msgRaw}
         \<and> (unmarshalMessage cd msgRaw = Some m \<and> unmarshalReply cd (msg_Content m) = Some rep
              \<longrightarrow> (\<forall>f \<in> set (receivedBy (sender t) (snd (handleReply c msgRaw rep b))).
                     replyIdOf cd f = Some (reply_Id rep)))"
  using receivedBy_handleReply [OF assms, of c msgRaw]
  by (auto simp: replyIdOf_def)

theorem reply_forwarded_verbatim_witness:
  "reqIds broker5 (reply_Id reply5) = Some tracker5
   \<and> set (receivedBy 1 (snd (handleReply 2 frame5 reply5 broker5))) = {frame5}
   \<and> unmarshalMessage codec5 frame5
       = Some \<lparr>msg_Type = Message_Reply, msg_Content = [0x08, 0x05]\<rparr>
   \<and> unmarshalReply codec5 [0x08, 0x05] = Some reply5
   \<and> list_all (\<lambda>f. replyIdOf codec5 f = Some 5)
        (receivedBy 1 (snd (handleReply 2 frame5 reply5 broker5)))"
proof -
  have h: "reqIds broker5 (reply_Id reply5) = Some tracker5"
    by (rule broker5_tracker)
  have d: "unmarshalMessage codec5 frame5
             = Some \<lparr>msg_Type = Message_Reply, msg_Content = [0x08, 0x05]\<rparr>"
    "unmarshalReply codec5 [0x08, 0x05] = Some reply5"
    by (simp_all add: codec5_def)
  show ?thesis
    using h d
      reply_forwarded_verbatim [OF h, of 2 frame5 codec5
        "\<lparr>msg_Type = Message_Reply, msg_Content = [0x08, 0x05]\<rparr>"]
    by (simp add: tracker5_def reply5_def list_all_iff)
qed

text \<open>
  C1 as stated fails: the tracker under the id 5 records the sender 1 and the client's
  id 7, and the one frame that connection 1 receives carries the id 5.
\<close>

theorem reply_id_not_restored:
  "map_option clientId (reqIds broker5 (reply_Id reply5)) = Some 7
   \<and> map_option sender (reqIds broker5 (reply_Id reply5)) = Some 1
   \<and> map (replyIdOf codec5) (receivedBy 1 (snd (handleReply 2 frame5 reply5 broker5)))
       = [Some 5]"
  by (simp add: broker5_def reply5_def New_def tracker5_def handleReply_def forwardToSpies_def
      receivedBy_def replyIdOf_def codec5_def frame5_def)

section \<open>Teardown and the request trackers\<close>

text \<open>
  C2, as the code has it. The teardown of a connection does not touch the table of
  request trackers and stops no timer: every record, also one whose sender is the
  closing connection, is still there afterwards, and a later Reply to such a request is
  forwarded to the stored sender, not dropped.
\<close>

theorem teardown_keeps_trackers:
  "reqIds (fst (teardown ce c b)) = reqIds b
   \<and> timerStops (snd (teardown ce c b)) = []
   \<and> (reqIds b (reply_Id rep) = Some t \<and> sender t = c \<longrightarrow>
        set (receivedBy c (snd (handleReply c2 msgRaw rep (fst (teardown ce c b))))) = {msgRaw})"
proof (intro conjI impI)
  show "reqIds (fst (teardown ce c b)) = reqIds b" by (rule reqIds_teardown)
  show "timerStops (snd (teardown ce c b)) = []" by (rule timerStops_teardown)
  assume a: "reqIds b (reply_Id rep) = Some t \<and> sender t = c"
  then have "reqIds (fst (teardown ce c b)) (reply_Id rep) = Some t"
    by (simp add: reqIds_teardown)
  from receivedBy_handleReply [OF this, of c2 msgRaw] a
  show "set (receivedBy c (snd (handleReply c2 msgRaw rep (fst (teardown ce c b))))) = {msgRaw}"
    by simp
qed

theorem teardown_keeps_trackers_witness:
  "reqIds broker5 (reply_Id reply5) = Some tracker5 \<and> sender tracker5 = 1
   \<and> reqIds (fst (teardown (\<lambda>x. False) 1 broker5)) = reqIds broker5
   \<and> set (receivedBy 1 (snd (handleReply 2 frame5 reply5 (fst (teardown (\<lambda>x. False) 1 broker5)))))
       = {frame5}"
proof -
  have h: "reqIds broker5 (reply_Id reply5) = Some tracker5 \<and> sender tracker5 = 1"
    by (simp add: broker5_tracker tracker5_def)
  show ?thesis
    using h teardown_keeps_trackers [of "\<lambda>x. False" 1 broker5 reply5 tracker5 2 frame5]
    by simp
qed

text \<open>
  C2 as stated fails: after the teardown of connection 1, which is no longer in the
  list of connections, the tracker whose sender it is remains, no timer was stopped, and
  the Reply that then arrives is written to connection 1.
\<close>

theorem teardown_leaves_tracker_of_closed_sender:
  "map_option sender (reqIds (fst (teardown (\<lambda>x. False) 1 broker5)) 5) = Some 1
   \<and> connList (fst (teardown (\<lambda>x. False) 1 broker5)) = [2, 3, 4]
   \<and> timerStops (snd (teardown (\<lambda>x. False) 1 broker5)) = []
   \<and> receivedBy 1 (snd (handleReply 2 frame5 reply5 (fst (teardown (\<lambda>x. False) 1 broker5))))
       = [frame5]"
  by (simp add: teardown_def broker5_def New_def slice_def tracker5_def handleReply_def reply5_def
      forwardToSpies_def receivedBy_def)

section \<open>Teardown and the subscriber tables\<close>

text \<open>
  C3, evaluated on the code. Connection 1 has subscribed twice to the event e. The range
  over the slice keeps the length and the last entry it started with, so the second
  match overwrites nothing and stores the same shortened slice again: after the
  teardown of connection 1 the table still holds one entry of connection 1, while
  \<open>log.lost_subscriber\<close> was published twice. With a third entry of connection 2
  behind the two, both matches copy that entry: connection 1 is gone, and connection 2
  is entered twice.
\<close>

theorem teardown_keeps_duplicate_subscriber:
  "subscriberMap (fst (teardown (\<lambda>x. False) 1 (New\<lparr>subscriberMap := [(''e'', [1, 1])]\<rparr>)))
     = [(''e'', [1])]
   \<and> snd (teardown (\<lambda>x. False) 1 (New\<lparr>subscriberMap := [(''e'', [1, 1])]\<rparr>))
     = [Publish logLostSubscriber (SubscriberJSON ''e'' 1),
        Publish logLostSubscriber (SubscriberJSON ''e'' 1),
        Publish logCloseConnection (ConnJSON 1)]
   \<and> subscriberMatchMap (fst (teardown (\<lambda>x. False) 1 (New\<lparr>subscriberMatchMap := [(''e.*'', [1, 1, 2])]\<rparr>)))
     = [(''e.*'', [2, 2])]"
  by (simp add: teardown_def New_def slice_def)

text \<open>
  The defect needs a duplicate. When the closing connection has at most one entry under
  every key of both tables, the teardown leaves no entry of it in either table.
\<close>

lemma teardown_removes_single_subscriptions:
  assumes "\<forall>p \<in> set (subscriberMap b). count_list (snd p) c \<le> 1"
    and "\<forall>p \<in> set (subscriberMatchMap b). count_list (snd p) c \<le> 1"
  shows "(\<forall>p \<in> set (subscriberMap (fst (teardown ce c b))). c \<notin> set (snd p))
         \<and> (\<forall>p \<in> set (subscriberMatchMap (fst (teardown ce c b))). c \<notin> set (snd p))"
  using removeConnFromMap_once [OF assms(1)] removeConnFromMap_once [OF assms(2)]
  by (simp add: subscriberMap_teardown)

section \<open>Teardown and the services\<close>

text \<open>
  C7. When a connection closes, for every service it owns the teardown leaves no entry
  in the service table under the service's name and identification, publishes
  \<open>log.lost_service\<close> with the service's description and closes every connection in
  the service's spy list; the last event of the teardown is the publication of
  \<open>log.close_connection\<close> for the connection.
\<close>

theorem teardown_removes_services:
  assumes "a \<in> set (slice (servicesConn b c))"
  shows "\<not> registered (fst (teardown ce c b)) (Name (heap b a)) (Identification (heap b a))
         \<and> Publish logLostService (ServiceJSON (heap b a)) \<in> set (snd (teardown ce c b))
         \<and> (\<forall>x \<in> set (Spies (heap b a)). ConnClose x \<in> set (snd (teardown ce c b)))
         \<and> last (snd (teardown ce c b)) = Publish logCloseConnection (ConnJSON c)"
proof -
  let ?b1 = "b\<lparr>connList := remove1 c (connList b), connNameMap := (connNameMap b)(c := None)\<rparr>"
  have a1: "a \<in> set (slice (servicesConn ?b1 c))" and h: "heap ?b1 = heap b"
    using assms by simp_all
  obtain es where es: "snd (teardown ce c b)
      = snd (removeServices ce (slice (servicesConn b c)) ?b1) @ es @ [Publish logCloseConnection (ConnJSON c)]"
    using events_teardown by blast
  have "\<not> registered (fst (teardown ce c b)) (Name (heap b a)) (Identification (heap b a))"
    using removeServices_unregisters [OF a1, of ce ?b1] by (simp add: registered_teardown)
  moreover have "Publish logLostService (ServiceJSON (heap b a)) \<in> set (snd (teardown ce c b))"
    using removeServices_events [OF a1, of ?b1 ce] by (simp add: es)
  moreover have "\<forall>x \<in> set (Spies (heap b a)). ConnClose x \<in> set (snd (teardown ce c b))"
    using removeServices_events [OF a1, of ?b1 ce] by (simp add: es)
  moreover have "last (snd (teardown ce c b)) = Publish logCloseConnection (ConnJSON c)"
    by (simp add: es)
  ultimately show ?thesis by blast
qed

theorem teardown_removes_services_witness:
  "0 \<in> set (slice (servicesConn broker7 1))
   \<and> heap broker7 0 = \<lparr>Name = ''math'', Identification = [], Spies = [3]\<rparr>
   \<and> \<not> registered (fst (teardown (\<lambda>x. False) 1 broker7)) ''math'' []
   \<and> Publish logLostService (ServiceJSON \<lparr>Name = ''math'', Identification = [], Spies = [3]\<rparr>)
        \<in> set (snd (teardown (\<lambda>x. False) 1 broker7))
   \<and> ConnClose 3 \<in> set (snd (teardown (\<lambda>x. False) 1 broker7))
   \<and> last (snd (teardown (\<lambda>x. False) 1 broker7)) = Publish logCloseConnection (ConnJSON 1)
   \<and> registered broker7 ''math'' []"
proof -
  have h: "0 \<in> set (slice (servicesConn broker7 1))"
    by (simp add: broker7_def slice_def)
  have v: "heap broker7 0 = \<lparr>Name = ''math'', Identification = [], Spies = [3]\<rparr>"
    by (simp add: broker7_def)
  have r: "registered broker7 ''math'' []"
    by (simp add: broker7_def registered_def)
  show ?thesis
    using h v r teardown_removes_services [OF h, of "\<lambda>x. False"] by simp
qed

section \<open>The dispatch loop and handleMessage\<close>

text \<open>
  C6. The receive loop leaves through its break exactly when a received result reports
  the stream closed, and only then does \<open>handle\<close> run the teardown; nothing after that
  result is handled. After a result that does not report a close the loop goes on with
  the rest from the state the message left, whether or not handling it returned an
  error. \<open>handleMessage\<close> returns an error exactly when the tag is none of the five or
  the payload does not unmarshal for its tag; in that case the broker is unchanged,
  nothing is written to a connection, and the result is the same whatever the handlers
  are, so none of them has run.
\<close>

theorem dispatch_loop_and_message_errors:
  "fst (handleLoop H cd c rs b) = list_ex recv_closed rs
   \<and> fst (handle H cd ce c rs b) = list_ex recv_closed rs
   \<and> (recv_closed r \<and> \<not> list_ex recv_closed rs \<longrightarrow>
        handleLoop H cd c (rs @ r # rest) b = handleLoop H cd c (rs @ [r]) b)
   \<and> (\<not> recv_closed r2 \<longrightarrow>
        fst (snd (handleLoop H cd c (r2 # rs) b))
          = fst (snd (handleLoop H cd c rs
              (fst (snd (handleMessage H cd c (recv_msgBytes r2) (recv_msg r2) b))))))
   \<and> (fst (handleMessage H cd c mb m b) \<noteq> None) = (\<not> decodes cd m)
   \<and> (\<not> decodes cd m \<longrightarrow>
        fst (snd (handleMessage H cd c mb m b)) = b
        \<and> sends (snd (snd (handleMessage H cd c mb m b))) = []
        \<and> handleMessage H cd c mb m b = handleMessage H2 cd c mb m b)"
  using handleLoop_breaks [of H cd c rs b] handle_tears_down [of H cd ce c rs b]
    handleLoop_stops_at_close [of r rs H cd c rest b] handleLoop_continues [of r2 H cd c rs b]
    handleMessage_error_iff [of H cd c mb m b] handleMessage_undecoded [of cd m H c mb b H2]
  by blast

theorem dispatch_loop_and_message_errors_witness:
  "recv_closed closeRecv \<and> \<not> list_ex recv_closed [strayRecv] \<and> \<not> recv_closed strayRecv
   \<and> \<not> decodes codec5 strayMessage
   \<and> handleMessage idleHandlers codec5 1 [0x08, 0x09] strayMessage New
       = (Some ''Unknown message type: %d'', New, [])
   \<and> fst (handleLoop idleHandlers codec5 1 [strayRecv] New) = False
   \<and> handleLoop idleHandlers codec5 1 ([strayRecv] @ closeRecv # [strayRecv]) New
       = handleLoop idleHandlers codec5 1 ([strayRecv] @ [closeRecv]) New
   \<and> fst (handle idleHandlers codec5 (\<lambda>x. False) 1 [strayRecv] New) = False"
proof -
  have h: "recv_closed closeRecv \<and> \<not> list_ex recv_closed [strayRecv]"
    "\<not> recv_closed strayRecv" "\<not> decodes codec5 strayMessage"
    by (simp_all add: closeRecv_def strayRecv_def decodes_def strayMessage_def)
  have m: "handleMessage idleHandlers codec5 1 [0x08, 0x09] strayMessage New
       = (Some ''Unknown message type: %d'', New, [])"
    by (simp add: handleMessage_def strayMessage_def)
  show ?thesis
    using h m
      dispatch_loop_and_message_errors [of idleHandlers codec5 1 "[strayRecv]" New "\<lambda>x. False"
        closeRecv "[strayRecv]" strayRecv "[0x08, 0x09]" strayMessage idleHandlers]
    by simp
qed

section \<open>Publish and Subscribe\<close>

text \<open>
  C8. On the broker, with the Subscribe and Publish handlers as the specification
  describes them: a connection that subscribes to a literal event, having no
  subscription that covers it before, receives the raw bytes of a later Publish of that
  event exactly once; a connection that subscribes to a pattern receives a later
  Publish of an event the pattern matches. On the client, as the sources have it:
  \<open>handlePublish\<close> calls the handler of every registered subscriber whose pattern
  matches the event name, once for each such subscriber and in the order of
  registration, with the event name and the data; \<open>Subscribe\<close> registers the
  subscriber at the end of that list.
\<close>

theorem publish_reaches_subscribers:
  "(literal e \<and> a \<notin> set (subscribersOf matches e b) \<longrightarrow>
      receivedBy a (snd (handlePublish matches c raw \<lparr>publish_Event = e, publish_Data = d\<rparr>
         (fst (handleSubscribe literal a \<lparr>subscribe_Event = e\<rparr> b)))) = [raw])
   \<and> (\<not> literal p \<and> matches p ev \<longrightarrow>
      raw \<in> set (receivedBy a (snd (handlePublish matches c raw \<lparr>publish_Event = ev, publish_Data = d\<rparr>
         (fst (handleSubscribe literal a \<lparr>subscribe_Event = p\<rparr> b))))))
   \<and> invocations (client_handlePublish env pub cl)
      = map (\<lambda>h. (sub_handle h, publish_Event pub, publish_Data pub))
          (filter (\<lambda>h. regexpMatch env (eventPattern h) (publish_Event pub)) (subscribers cl))
   \<and> subscribers (fst (snd (client_Subscribe env pat handler cl)))
      = subscribers cl @ [\<lparr>eventPattern = pat, sub_handle = handler\<rparr>]"
proof (intro conjI impI)
  assume h: "literal e \<and> a \<notin> set (subscribersOf matches e b)"
  have "subscribersOf matches e (fst (handleSubscribe literal a \<lparr>subscribe_Event = e\<rparr> b))
          = slice (map_of (subscriberMap b) e) @ [a]
            @ concat (map snd (filter (\<lambda>p. matches (fst p) e) (subscriberMatchMap b)))"
    using h by (simp add: subscribersOf_def handleSubscribe_def map_of_appendSub slice_def)
  moreover have "count_list (slice (map_of (subscriberMap b) e)) a = 0"
    "count_list (concat (map snd (filter (\<lambda>p. matches (fst p) e) (subscriberMatchMap b)))) a = 0"
    using h by (simp_all add: subscribersOf_def count_list_0_iff)
  ultimately show "receivedBy a (snd (handlePublish matches c raw \<lparr>publish_Event = e, publish_Data = d\<rparr>
         (fst (handleSubscribe literal a \<lparr>subscribe_Event = e\<rparr> b)))) = [raw]"
    by (simp add: receivedBy_publish)
next
  assume h: "\<not> literal p \<and> matches p ev"
  obtain subs where s: "(p, subs) \<in> set (appendSub p a (subscriberMatchMap b))" "a \<in> set subs"
    using appendSub_has by blast
  have "a \<in> set (subscribersOf matches ev (fst (handleSubscribe literal a \<lparr>subscribe_Event = p\<rparr> b)))"
    using h s by (force simp: subscribersOf_def handleSubscribe_def)
  then have "count_list (subscribersOf matches ev (fst (handleSubscribe literal a \<lparr>subscribe_Event = p\<rparr> b))) a > 0"
    by (simp add: count_list_0_iff zero_less_iff_neq_zero)
  then show "raw \<in> set (receivedBy a (snd (handlePublish matches c raw \<lparr>publish_Event = ev, publish_Data = d\<rparr>
         (fst (handleSubscribe literal a \<lparr>subscribe_Event = p\<rparr> b)))))"
    by (simp add: receivedBy_publish)
next
  show "invocations (client_handlePublish env pub cl)
      = map (\<lambda>h. (sub_handle h, publish_Event pub, publish_Data pub))
          (filter (\<lambda>h. regexpMatch env (eventPattern h) (publish_Event pub)) (subscribers cl))"
    by (simp add: client_handlePublish_def invocations_callSubscribers)
next
  show "subscribers (fst (snd (client_Subscribe env pat handler cl)))
      = subscribers cl @ [\<lparr>eventPattern = pat, sub_handle = handler\<rparr>]"
    by (simp add: client_Subscribe_def Let_def split: option.splits)
qed

theorem publish_reaches_subscribers_witness:
  "(\<lambda>s. s = ''e'') ''e'' \<and> 1 \<notin> set (subscribersOf fooMatch ''e'' New)
   \<and> receivedBy 1 (snd (handlePublish fooMatch 2 [0x0A] \<lparr>publish_Event = ''e'', publish_Data = [0x31]\<rparr>
        (fst (handleSubscribe (\<lambda>s. s = ''e'') 1 \<lparr>subscribe_Event = ''e''\<rparr> New)))) = [[0x0A]]
   \<and> \<not> (\<lambda>s. s = ''e'') fooPattern \<and> fooMatch fooPattern ''foo.bar''
   \<and> [0x0A] \<in> set (receivedBy 1 (snd (handlePublish fooMatch 2 [0x0A]
        \<lparr>publish_Event = ''foo.bar'', publish_Data = [0x31]\<rparr>
        (fst (handleSubscribe (\<lambda>s. s = ''e'') 1 \<lparr>subscribe_Event = fooPattern\<rparr> New)))))
   \<and> invocations (client_handlePublish env0 \<lparr>publish_Event = ''foo.bar'', publish_Data = [0x31]\<rparr> client0)
       = [(0, ''foo.bar'', [0x31])]"
proof -
  have h: "(\<lambda>s. s = ''e'') ''e'' \<and> 1 \<notin> set (subscribersOf fooMatch ''e'' New)"
    "\<not> (\<lambda>s. s = ''e'') fooPattern \<and> fooMatch fooPattern ''foo.bar''"
    by (simp_all add: subscribersOf_def New_def slice_def fooPattern_def fooMatch_def)
  have i: "map (\<lambda>h. (sub_handle h, ''foo.bar'', [0x31 :: 8 word]))
             (filter (\<lambda>h. regexpMatch env0 (eventPattern h) ''foo.bar'') (subscribers client0))
           = [(0, ''foo.bar'', [0x31])]"
    by (simp add: client0_def env0_def fooMatch_def fooPattern_def)
  show ?thesis
    using h i
      publish_reaches_subscribers [of "\<lambda>s. s = ''e''" "''e''" 1 fooMatch New 2 "[0x0A]" "[0x31]"
        fooPattern "''foo.bar''" env0 "\<lparr>publish_Event = ''foo.bar'', publish_Data = [0x31]\<rparr>" client0]
      publish_reaches_subscribers [of "\<lambda>s. s = ''e''" fooPattern 1 fooMatch New 2 "[0x0A]" "[0x31]"
        fooPattern "''foo.bar''" env0 "\<lparr>publish_Event = ''foo.bar'', publish_Data = [0x31]\<rparr>" client0]
    by simp
qed

section \<open>The client's requests in flight\<close>

text \<open>
  C9. No operation of the client removes or changes an entry of \<open>requestsInFlight\<close>:
  over any run that does not panic the table only grows. In particular, when a Reply
  arrives for an id in the table, \<open>handleReply\<close> sends it into the channel stored there
  and the client, with that entry, is as before. \<open>sendRequestWaitForReply\<close> panics
  when the id after the current one, counted modulo \<open>2^64\<close>, has an entry in the table;
  the panic is the duplicate-id one when the request has an id field and marshals.
\<close>

theorem requests_in_flight_never_removed:
  "(client_run env cd ops c = Inr (c1, es) \<longrightarrow> requestsInFlight c \<subseteq>\<^sub>m requestsInFlight c1)
   \<and> (requestsInFlight c (reply_Id rep) = Some ch \<and> unmarshalReply cd content = Some rep \<longrightarrow>
        client_step env cd (OpMessage \<lparr>msg_Type = Message_Reply, msg_Content = content\<rparr>) c
          = Inr (c, [ChanSend ch rep]))
   \<and> (requestsInFlight c (currentRequestId c + 1) \<noteq> None \<longrightarrow>
        isl (client_sendRequestWaitForReply env ch2 req c))
   \<and> (request_Id req \<noteq> None
        \<and> marshalRequest env (req\<lparr>request_Id := Some (currentRequestId c + 1)\<rparr>) \<noteq> None
        \<and> requestsInFlight c (currentRequestId c + 1) \<noteq> None \<longrightarrow>
        client_sendRequestWaitForReply env ch2 req c
          = Inl (DuplicateRequestId (currentRequestId c + 1)))"
  using client_run_grows [of env cd ops c c1 es]
  by (auto simp: client_handleMessage_def client_handleReply_def
      client_sendRequestWaitForReply_def Let_def split: option.splits)

text \<open>
  An instance: the client with a request in flight under 42 subscribes and then
  receives the Reply 5, which matches nothing; the entry 42 is still there. A Reply
  with the id 42 is sent into channel 0. The next id after 41 is 42: sending a request
  panics.
\<close>

theorem requests_in_flight_never_removed_witness:
  "client_run env0 codec5
       [OpSubscribe ''e'' 3, OpMessage \<lparr>msg_Type = Message_Reply, msg_Content = [0x08, 0x05]\<rparr>] client0
     = Inr (client0\<lparr>subscribers := subscribers client0 @ [\<lparr>eventPattern = ''e'', sub_handle = 3\<rparr>]\<rparr>,
            [CLog Debug ''[Subscribe] Adding subsriber %p to event pattern: %s'',
             CSend \<lparr>msg_Type = Message_Subscribe, msg_Content = []\<rparr>])
   \<and> requestsInFlight client0 \<subseteq>\<^sub>m requestsInFlight
       (client0\<lparr>subscribers := subscribers client0 @ [\<lparr>eventPattern = ''e'', sub_handle = 3\<rparr>]\<rparr>)
   \<and> requestsInFlight client0 (reply_Id (reply5\<lparr>reply_Id := 42\<rparr>)) = Some 0
   \<and> unmarshalReply (codec5\<lparr>unmarshalReply := (\<lambda>f. Some (reply5\<lparr>reply_Id := 42\<rparr>))\<rparr>) [] = Some (reply5\<lparr>reply_Id := 42\<rparr>)
   \<and> client_step env0 (codec5\<lparr>unmarshalReply := (\<lambda>f. Some (reply5\<lparr>reply_Id := 42\<rparr>))\<rparr>)
        (OpMessage \<lparr>msg_Type = Message_Reply, msg_Content = []\<rparr>) client0
       = Inr (client0, [ChanSend 0 (reply5\<lparr>reply_Id := 42\<rparr>)])
   \<and> request_Id request0 \<noteq> None
   \<and> marshalRequest env0 (request0\<lparr>request_Id := Some (currentRequestId client0 + 1)\<rparr>) \<noteq> None
   \<and> requestsInFlight client0 (currentRequestId client0 + 1) \<noteq> None
   \<and> client_sendRequestWaitForReply env0 7 request0 client0 = Inl (DuplicateRequestId 42)"
proof -
  let ?c1 = "client0\<lparr>subscribers := subscribers client0 @ [\<lparr>eventPattern = ''e'', sub_handle = 3\<rparr>]\<rparr>"
  let ?es = "[CLog Debug ''[Subscribe] Adding subsriber %p to event pattern: %s'',
              CSend \<lparr>msg_Type = Message_Subscribe, msg_Content = []\<rparr>]"
  let ?cd = "codec5\<lparr>unmarshalReply := (\<lambda>f. Some (reply5\<lparr>reply_Id := 42\<rparr>))\<rparr>"
  have r: "client_run env0 codec5
       [OpSubscribe ''e'' 3, OpMessage \<lparr>msg_Type = Message_Reply, msg_Content = [0x08, 0x05]\<rparr>] client0
     = Inr (?c1, ?es)"
    by (simp add: client_Subscribe_def env0_def client_handleMessage_def codec5_def
        client_handleReply_def reply5_def client0_def)
  have h: "requestsInFlight client0 (reply_Id (reply5\<lparr>reply_Id := 42\<rparr>)) = Some 0
           \<and> unmarshalReply ?cd [] = Some (reply5\<lparr>reply_Id := 42\<rparr>)"
    "request_Id request0 \<noteq> None
     \<and> marshalRequest env0 (request0\<lparr>request_Id := Some (currentRequestId client0 + 1)\<rparr>) \<noteq> None
     \<and> requestsInFlight client0 (currentRequestId client0 + 1) \<noteq> None"
    "currentRequestId client0 + 1 = 42"
    by (simp_all add: client0_def request0_def env0_def)
  show ?thesis
    using r h
      requests_in_flight_never_removed [of env0 codec5
        "[OpSubscribe ''e'' 3, OpMessage \<lparr>msg_Type = Message_Reply, msg_Content = [0x08, 0x05]\<rparr>]"
        client0 ?c1 ?es "reply5\<lparr>reply_Id := 42\<rparr>" 0 "[]" 7 request0]
      requests_in_flight_never_removed [of env0 ?cd "[]" client0 client0 "[]"
        "reply5\<lparr>reply_Id := 42\<rparr>" 0 "[]" 7 request0]
    by simp
qed

section \<open>The client's requests for a service it does not have\<close>

text \<open>
  C10. When a Request names a service the client has not registered, or a name under
  which no identification is registered, \<open>handleRequest\<close> of the client panics; the
  panic passes through \<open>handleRequestReply\<close> and \<open>handleMessage\<close>, so nothing is sent:
  no Reply, with or without a Custom error, is produced for the request.
\<close>

theorem unknown_service_panics:
  assumes "request_ServiceName req = Some name" "request_Method req = Some method"
    "request_Id req = Some ident" "request_ServiceIdentification req = Some sid"
    "services c name = None \<or> (\<exists>idents. services c name = Some idents \<and> dom idents = {})"
  shows "client_handleRequest env req c = Inl (NoSuchService name)
         \<and> client_handleRequestReply env req c = Inl (NoSuchService name)
         \<and> (unmarshalRequest cd content = Some req \<longrightarrow>
              client_handleMessage env cd \<lparr>msg_Type = Message_Request, msg_Content = content\<rparr> c
                = Inl (NoSuchService name))"
proof -
  have 1: "client_handleRequest env req c = Inl (NoSuchService name)"
    using assms by (auto simp: client_handleRequest_def)
  then have 2: "client_handleRequestReply env req c = Inl (NoSuchService name)"
    by (simp add: client_handleRequestReply_def)
  then show ?thesis
    using 1 by (simp add: client_handleMessage_def)
qed

theorem unknown_service_panics_witness:
  "services client0 ''idle'' = Some Map.empty
   \<and> client_handleRequest env0 request0 client0 = Inl (NoSuchService ''idle'')
   \<and> client_handleRequestReply env0 request0 client0 = Inl (NoSuchService ''idle'')
   \<and> services client0 ''nope'' = None
   \<and> client_handleRequestReply env0 (request0\<lparr>request_ServiceName := Some ''nope''\<rparr>) client0
       = Inl (NoSuchService ''nope'')
   \<and> client_handleMessage env0 (codec5\<lparr>unmarshalRequest := (\<lambda>f. Some request0)\<rparr>)
        \<lparr>msg_Type = Message_Request, msg_Content = []\<rparr> client0 = Inl (NoSuchService ''idle'')"
proof -
  have f: "request_ServiceName request0 = Some ''idle''" "request_Method request0 = Some ''ping''"
    "request_Id request0 = Some 0" "request_ServiceIdentification request0 = Some []"
    by (simp_all add: request0_def)
  have g: "request_ServiceName (request0\<lparr>request_ServiceName := Some ''nope''\<rparr>) = Some ''nope''"
    "request_Method (request0\<lparr>request_ServiceName := Some ''nope''\<rparr>) = Some ''ping''"
    "request_Id (request0\<lparr>request_ServiceName := Some ''nope''\<rparr>) = Some 0"
    "request_ServiceIdentification (request0\<lparr>request_ServiceName := Some ''nope''\<rparr>) = Some []"
    by (simp_all add: request0_def)
  have s1: "services client0 ''idle'' = None
            \<or> (\<exists>idents. services client0 ''idle'' = Some idents \<and> dom idents = {})"
    by (simp add: client0_def)
  have s2: "services client0 ''nope'' = None
            \<or> (\<exists>idents. services client0 ''nope'' = Some idents \<and> dom idents = {})"
    by (simp add: client0_def)
  have v: "services client0 ''idle'' = Some Map.empty" "services client0 ''nope'' = None"
    by (simp_all add: client0_def)
  show ?thesis
    using v unknown_service_panics [OF f s1, of env0 "codec5\<lparr>unmarshalRequest := (\<lambda>f. Some request0)\<rparr>" "[]"]
      unknown_service_panics [OF g s2, of env0 codec5 "[]"]
    by simp
qed

end
